theory Spec2Isabelle
  imports Main "HOL-Library.Word"
begin

unbundle bit_operations_syntax

section \<open>Raw memory\<close>

text \<open>
  The package reads type metadata through \<^verbatim>\<open>unsafe.Pointer\<close>. The comment on
  \<^verbatim>\<open>InterfaceHeader\<close> fixes pointers at 8 bytes, so an address (and a \<^verbatim>\<open>uintptr\<close>)
  is a 64-bit word whose arithmetic wraps, and \<^verbatim>\<open>nil\<close> is address 0. Memory is a partial
  map from addresses to bytes: the addresses in its domain are the mapped ones, and a load
  from any other address is a fault that ends the program.
\<close>

type_synonym addr = "64 word"
type_synonym byte = "8 word"
type_synonym memory = "addr \<rightharpoonup> byte"

datatype error =
    Fault addr                \<comment> \<open>load from an unmapped address\<close>
  | Panic string              \<comment> \<open>\<^verbatim>\<open>panic(msg)\<close>\<close>
  | IndexOutOfRange nat nat   \<comment> \<open>run-time panic: index, length\<close>
  | SliceBounds nat nat       \<comment> \<open>run-time panic: low bound, length\<close>

text \<open>
  A Go function that touches memory is a function from the memory before the call to its
  outcome (an error or a value) and the memory after the call.
\<close>

type_synonym 'a action = "memory \<Rightarrow> (error + 'a) \<times> memory"

definition ret :: "'a \<Rightarrow> 'a action" where
  "ret x = (\<lambda>h. (Inr x, h))"

definition fail :: "error \<Rightarrow> 'a action" where
  "fail e = (\<lambda>h. (Inl e, h))"

definition and_then :: "'a action \<Rightarrow> ('a \<Rightarrow> 'b action) \<Rightarrow> 'b action" where
  "and_then m f = (\<lambda>h. case m h of (Inl e, h') \<Rightarrow> (Inl e, h') | (Inr x, h') \<Rightarrow> f x h')"

definition call :: "error + 'a \<Rightarrow> 'a action" where
  "call r = (\<lambda>h. (r, h))"

text \<open>\<^verbatim>\<open>*p\<close> for a \<^verbatim>\<open>*byte\<close>, and \<^verbatim>\<open>*p = v\<close>.\<close>

definition deref :: "addr \<Rightarrow> byte action" where
  "deref p = (\<lambda>h. (case h p of None \<Rightarrow> Inl (Fault p) | Some b \<Rightarrow> Inr b, h))"

definition store :: "addr \<Rightarrow> byte \<Rightarrow> unit action" where
  "store p v = (\<lambda>h. (Inr (), h(p \<mapsto> v)))"

text \<open>Consecutive bytes written from an address upwards, and read back.\<close>

fun store_bytes :: "addr \<Rightarrow> byte list \<Rightarrow> memory \<Rightarrow> memory" where
  "store_bytes p [] h = h"
| "store_bytes p (b # bs) h = store_bytes (p + 1) bs (h(p \<mapsto> b))"

fun read_bytes :: "memory \<Rightarrow> addr \<Rightarrow> nat \<Rightarrow> byte list option" where
  "read_bytes h p 0 = Some []"
| "read_bytes h p (Suc k) =
     (case h p of
        None \<Rightarrow> None
      | Some b \<Rightarrow> (case read_bytes h (p + 1) k of None \<Rightarrow> None | Some bs \<Rightarrow> Some (b # bs)))"

section \<open>Strings\<close>

text \<open>
  A Go string is a sequence of bytes, as an Isabelle \<^typ>\<open>string\<close> is. Its run-time value
  is the header below; \<^verbatim>\<open>Name\<close> and \<^verbatim>\<open>Tag\<close> fill the header in by hand so that the
  string is a view of the record's own bytes. \<open>string_of\<close> is the text such a header
  denotes in a memory: the \<open>Len\<close> bytes from \<open>Data\<close> on. The empty string is the zero
  header, the value of a named result that is never assigned; a string of length 0 has no
  text, whatever its pointer.
\<close>

record StringHeader =
  Data :: addr
  Len :: int

definition empty_string :: StringHeader where
  "empty_string = \<lparr>Data = 0, Len = 0\<rparr>"

definition byte_of_char :: "char \<Rightarrow> byte" where
  "byte_of_char c = word_of_nat (of_char c)"

definition char_of_byte :: "byte \<Rightarrow> char" where
  "char_of_byte b = char_of (unat b)"

definition string_of :: "memory \<Rightarrow> StringHeader \<Rightarrow> string option" where
  "string_of h s = map_option (map char_of_byte) (read_bytes h (Data s) (nat (Len s)))"

section \<open>The host runtime\<close>

text \<open>
  \<^verbatim>\<open>ResolveNameOff\<close>, \<^verbatim>\<open>ResolveTypeOff\<close> and \<^verbatim>\<open>ResolveTextOff\<close> are declared without a
  body and linked to the runtime, so they are parameters here: each takes a base pointer and
  an \<^verbatim>\<open>int32\<close> and gives an address, or ends the program. \<^verbatim>\<open>PkgPath\<close> copies four
  bytes of memory over an \<^verbatim>\<open>int32\<close> variable, so the value it gets depends on the byte
  order of the machine, which is a parameter too.
\<close>

datatype byte_order = LittleEndian | BigEndian

record runtime =
  ResolveNameOff :: "addr \<Rightarrow> 32 word \<Rightarrow> error + addr"
  ResolveTypeOff :: "addr \<Rightarrow> 32 word \<Rightarrow> error + addr"
  ResolveTextOff :: "addr \<Rightarrow> 32 word \<Rightarrow> error + addr"
  byteOrder :: byte_order

definition int32_of_bytes :: "byte_order \<Rightarrow> byte \<Rightarrow> byte \<Rightarrow> byte \<Rightarrow> byte \<Rightarrow> 32 word" where
  "int32_of_bytes ord b0 b1 b2 b3 =
     (case ord of
        LittleEndian \<Rightarrow>
          ucast b0 OR push_bit 8 (ucast b1) OR push_bit 16 (ucast b2) OR push_bit 24 (ucast b3)
      | BigEndian \<Rightarrow>
          ucast b3 OR push_bit 8 (ucast b2) OR push_bit 16 (ucast b1) OR push_bit 24 (ucast b0))"

section \<open>Pointer arithmetic\<close>

text \<open>\<^verbatim>\<open>func Add(p unsafe.Pointer, x uintptr, whySafe string) unsafe.Pointer\<close>\<close>

definition Add :: "addr \<Rightarrow> addr \<Rightarrow> string \<Rightarrow> addr" where
  "Add p x whySafe = p + x"

section \<open>Name records\<close>

record Name =
  bytes :: addr

text \<open>\<^verbatim>\<open>off\<close> is an \<^verbatim>\<open>int\<close>; \<^verbatim>\<open>uintptr(off)\<close> keeps its low 64 bits.\<close>

definition Name_Data :: "Name \<Rightarrow> int \<Rightarrow> string \<Rightarrow> addr" where
  "Name_Data n off whySafe = Add (bytes n) (word_of_int off) whySafe"

text \<open>
  \<^verbatim>\<open>func (n Name) IsExported() bool { return (*n.bytes)&(1<<0) != 0 }\<close>
\<close>

definition Name_IsExported :: "Name \<Rightarrow> bool action" where
  "Name_IsExported n =
     and_then (deref (bytes n)) (\<lambda>b.
     ret (b AND push_bit 0 1 \<noteq> 0))"

text \<open>
  \<^verbatim>\<open>return int(uint16(*n.Data(1, "name len field"))<<8 | uint16(*n.Data(2, "name len field")))\<close>
\<close>

definition Name_NameLen :: "Name \<Rightarrow> int action" where
  "Name_NameLen n =
     and_then (deref (Name_Data n 1 ''name len field'')) (\<lambda>hi.
     and_then (deref (Name_Data n 2 ''name len field'')) (\<lambda>lo.
     ret (uint (push_bit 8 (ucast hi :: 16 word) OR ucast lo))))"

text \<open>
  \<^verbatim>\<open>if *n.Data(0, "name flag field")&(1<<1) == 0 { return 0 }\<close>,
  then \<^verbatim>\<open>off := 3 + n.NameLen()\<close> and the two bytes at \<^verbatim>\<open>off\<close> and \<^verbatim>\<open>off+1\<close>.
\<close>

definition Name_TagLen :: "Name \<Rightarrow> int action" where
  "Name_TagLen n =
     and_then (deref (Name_Data n 0 ''name flag field'')) (\<lambda>f.
     if f AND push_bit 1 1 = 0 then ret 0
     else
       and_then (Name_NameLen n) (\<lambda>nl.
       let off = 3 + nl in
       and_then (deref (Name_Data n off ''name taglen field'')) (\<lambda>hi.
       and_then (deref (Name_Data n (off + 1) ''name taglen field'')) (\<lambda>lo.
       ret (uint (push_bit 8 (ucast hi :: 16 word) OR ucast lo))))))"

text \<open>
  \<^verbatim>\<open>Name\<close> views the record as a \<^verbatim>\<open>[4]byte\<close>: \<^verbatim>\<open>&b[3]\<close> is only computed,
  \<^verbatim>\<open>b[1]\<close> and \<^verbatim>\<open>b[2]\<close> are loaded.
\<close>

definition Name_Name :: "Name \<Rightarrow> StringHeader action" where
  "Name_Name n =
     (if bytes n = 0 then ret empty_string
      else
        let b = bytes n in
        and_then (deref (b + 1)) (\<lambda>b1.
        and_then (deref (b + 2)) (\<lambda>b2.
        ret \<lparr>Data = b + 3, Len = push_bit 8 (uint b1) OR uint b2\<rparr>)))"

text \<open>
  \<^verbatim>\<open>Tag\<close> returns \<^verbatim>\<open>""\<close> when \<^verbatim>\<open>TagLen\<close> is 0, and otherwise the
  \<^verbatim>\<open>tl\<close> bytes at \<^verbatim>\<open>n.Data(3+nl+2, "non-empty string")\<close>.
\<close>

definition Name_Tag :: "Name \<Rightarrow> StringHeader action" where
  "Name_Tag n =
     and_then (Name_TagLen n) (\<lambda>tl.
     if tl = 0 then ret empty_string
     else
       and_then (Name_NameLen n) (\<lambda>nl.
       ret \<lparr>Data = Name_Data n (3 + nl + 2) ''non-empty string'', Len = tl\<rparr>))"

text \<open>The four bytes copied over \<^verbatim>\<open>nameOff\<close>, lowest address first.\<close>

definition load_int32 :: "byte_order \<Rightarrow> addr \<Rightarrow> 32 word action" where
  "load_int32 ord p =
     and_then (deref p) (\<lambda>b0.
     and_then (deref (p + 1)) (\<lambda>b1.
     and_then (deref (p + 2)) (\<lambda>b2.
     and_then (deref (p + 3)) (\<lambda>b3.
     ret (int32_of_bytes ord b0 b1 b2 b3)))))"

text \<open>
  \<^verbatim>\<open>PkgPath\<close> returns \<^verbatim>\<open>""\<close> if
  \<^verbatim>\<open>n.bytes == nil || *n.Data(0, "name flag field")&(1<<2) == 0\<close>. Otherwise
  \<^verbatim>\<open>off := 3 + n.NameLen()\<close>, then \<^verbatim>\<open>if tl := n.TagLen(); tl > 0 { off += 2 + tl }\<close>,
  the four bytes at \<^verbatim>\<open>n.Data(off, "name offset field")\<close> are copied over
  \<^verbatim>\<open>nameOff\<close>, and the result is \<^verbatim>\<open>pkgPathName.Name()\<close> for
  \<^verbatim>\<open>pkgPathName := Name{(*byte)(ResolveTypeOff(unsafe.Pointer(n.bytes), nameOff))}\<close>.
\<close>

definition Name_PkgPath :: "runtime \<Rightarrow> Name \<Rightarrow> StringHeader action" where
  "Name_PkgPath rt n =
     (if bytes n = 0 then ret empty_string
      else
        and_then (deref (Name_Data n 0 ''name flag field'')) (\<lambda>f.
        if f AND push_bit 2 1 = 0 then ret empty_string
        else
          and_then (Name_NameLen n) (\<lambda>nl.
          and_then (Name_TagLen n) (\<lambda>tl.
          let off = (if tl > 0 then 3 + nl + (2 + tl) else 3 + nl) in
          and_then (load_int32 (byteOrder rt) (Name_Data n off ''name offset field'')) (\<lambda>nameOff.
          and_then (call (ResolveTypeOff rt (bytes n) nameOff)) (\<lambda>p.
          Name_Name \<lparr>bytes = p\<rparr>))))))"

section \<open>Descriptor offsets\<close>

text \<open>
  The methods \<^verbatim>\<open>NameOff\<close>, \<^verbatim>\<open>TypeOff\<close> and \<^verbatim>\<open>TextOff\<close> of \<^verbatim>\<open>*rtype\<close> hand the
  descriptor's own address and the offset to the runtime's resolver.
\<close>

definition rtype_NameOff :: "runtime \<Rightarrow> addr \<Rightarrow> 32 word \<Rightarrow> Name action" where
  "rtype_NameOff rt t off =
     and_then (call (ResolveNameOff rt t off)) (\<lambda>p. ret \<lparr>bytes = p\<rparr>)"

definition rtype_TypeOff :: "runtime \<Rightarrow> addr \<Rightarrow> 32 word \<Rightarrow> addr action" where
  "rtype_TypeOff rt t off = call (ResolveTypeOff rt t off)"

definition rtype_TextOff :: "runtime \<Rightarrow> addr \<Rightarrow> 32 word \<Rightarrow> addr action" where
  "rtype_TextOff rt t off = call (ResolveTextOff rt t off)"

section \<open>Constructing a Name\<close>

text \<open>
  A byte slice is a base pointer and a length; indexing and re-slicing check the length
  and panic, as the Go run time does. \<^verbatim>\<open>make([]byte, l)\<close> gives \<open>l\<close> zero bytes at an
  address that the allocator chooses: that address is the parameter \<open>p\<close> of
  \<open>make_bytes\<close> and of \<open>NewName\<close>.
\<close>

record slice =
  sl_ptr :: addr
  sl_len :: nat

definition make_bytes :: "addr \<Rightarrow> nat \<Rightarrow> slice action" where
  "make_bytes p l = (\<lambda>h. (Inr \<lparr>sl_ptr = p, sl_len = l\<rparr>, store_bytes p (replicate l 0) h))"

text \<open>\<^verbatim>\<open>&s[i]\<close>, \<^verbatim>\<open>s[i] = v\<close>, \<^verbatim>\<open>s[k:]\<close> and \<^verbatim>\<open>copy(s, src)\<close> for a string \<^verbatim>\<open>src\<close>.\<close>

definition slice_addr :: "slice \<Rightarrow> nat \<Rightarrow> addr action" where
  "slice_addr s i =
     (if i < sl_len s then ret (sl_ptr s + word_of_nat i)
      else fail (IndexOutOfRange i (sl_len s)))"

definition slice_set :: "slice \<Rightarrow> nat \<Rightarrow> byte \<Rightarrow> unit action" where
  "slice_set s i v = and_then (slice_addr s i) (\<lambda>a. store a v)"

definition slice_from :: "slice \<Rightarrow> nat \<Rightarrow> slice action" where
  "slice_from s k =
     (if k \<le> sl_len s then ret \<lparr>sl_ptr = sl_ptr s + word_of_nat k, sl_len = sl_len s - k\<rparr>
      else fail (SliceBounds k (sl_len s)))"

definition copy_string :: "slice \<Rightarrow> string \<Rightarrow> nat action" where
  "copy_string s src =
     (\<lambda>h. (Inr (min (sl_len s) (length src)),
            store_bytes (sl_ptr s) (take (sl_len s) (map byte_of_char src)) h))"

text \<open>
  \<^verbatim>\<open>func NewName(n, tag string, exported bool) Name\<close>, statement by statement: the two
  length checks against \<^verbatim>\<open>1<<16-1\<close>, the flag bits and the length \<^verbatim>\<open>l\<close>,
  \<^verbatim>\<open>b := make([]byte, l)\<close>, the writes to \<^verbatim>\<open>b[0]\<close>, \<^verbatim>\<open>b[1]\<close>,
  \<^verbatim>\<open>b[2]\<close>, \<^verbatim>\<open>copy(b[3:], n)\<close>, for a non-empty tag the writes through
  \<^verbatim>\<open>tb := b[3+len(n):]\<close>, and \<^verbatim>\<open>Name{bytes: &b[0]}\<close>.
\<close>

definition NewName :: "addr \<Rightarrow> string \<Rightarrow> string \<Rightarrow> bool \<Rightarrow> Name action" where
  "NewName p n tag exported =
     (if length n > 2 ^ 16 - 1 then fail (Panic (''reflect.nameFrom: name too long: '' @ n))
      else if length tag > 2 ^ 16 - 1 then fail (Panic (''reflect.nameFrom: tag too long: '' @ tag))
      else
        let bits0 = (0 :: byte);
            l0 = 1 + 2 + length n;
            bits1 = (if exported then bits0 OR push_bit 0 1 else bits0);
            l = (if length tag > 0 then l0 + (2 + length tag) else l0);
            bits = (if length tag > 0 then bits1 OR push_bit 1 1 else bits1)
        in
        and_then (make_bytes p l) (\<lambda>b.
        and_then (slice_set b 0 bits) (\<lambda>_.
        and_then (slice_set b 1 (word_of_nat (drop_bit 8 (length n)))) (\<lambda>_.
        and_then (slice_set b 2 (word_of_nat (length n))) (\<lambda>_.
        and_then (slice_from b 3) (\<lambda>b3.
        and_then (copy_string b3 n) (\<lambda>_.
        and_then
          (if length tag > 0 then
             and_then (slice_from b (3 + length n)) (\<lambda>tb.
             and_then (slice_set tb 0 (word_of_nat (drop_bit 8 (length tag)))) (\<lambda>_.
             and_then (slice_set tb 1 (word_of_nat (length tag))) (\<lambda>_.
             and_then (slice_from tb 2) (\<lambda>tb2.
             and_then (copy_string tb2 tag) (\<lambda>_.
             ret ())))))
           else ret ()) (\<lambda>_.
        and_then (slice_addr b 0) (\<lambda>a.
        ret \<lparr>bytes = a\<rparr>)))))))))"

section \<open>The documented layout\<close>

text \<open>
  The comment on the type \<^verbatim>\<open>Name\<close> gives the layout of a record: a flag byte (bit 0
  exported, bit 1 tag data follows), the length of the name in two bytes, high byte first,
  the name, and, when there is a tag, its length in two bytes and the tag. \<open>encode_name\<close>
  is that layout, for a record without an import path; the lemmas below relate
  \<open>NewName\<close> and the accessors to it.
\<close>

definition encode_name :: "string \<Rightarrow> string \<Rightarrow> bool \<Rightarrow> byte list" where
  "encode_name n tag exported =
     ((if exported then 1 else 0) OR (if tag = [] then 0 else 2))
     # word_of_nat (length n div 256) # word_of_nat (length n)
     # map byte_of_char n
     @ (if tag = [] then []
        else word_of_nat (length tag div 256) # word_of_nat (length tag) # map byte_of_char tag)"

section \<open>A sample runtime and memory\<close>

text \<open>
  A runtime whose name offsets and type offsets are relative to two different tables (at
  200 and at 100), on a little-endian machine, and a memory with three records: at 16 a
  record named \<open>f\<close> whose flag byte has only the import-path bit set and whose offset
  field holds 8; at 108 a record named \<open>T\<close>; at 208 a record named \<open>N\<close>.
\<close>

definition sample_runtime :: runtime where
  "sample_runtime =
     \<lparr>ResolveNameOff = (\<lambda>base off. Inr (200 + scast off)),
      ResolveTypeOff = (\<lambda>base off. Inr (100 + scast off)),
      ResolveTextOff = (\<lambda>base off. Inr (300 + scast off)),
      byteOrder = LittleEndian\<rparr>"

definition sample_memory :: memory where
  "sample_memory =
     [16 \<mapsto> 4, 17 \<mapsto> 0, 18 \<mapsto> 1, 19 \<mapsto> byte_of_char CHR ''f'', 20 \<mapsto> 8, 21 \<mapsto> 0, 22 \<mapsto> 0, 23 \<mapsto> 0,
      108 \<mapsto> 0, 109 \<mapsto> 0, 110 \<mapsto> 1, 111 \<mapsto> byte_of_char CHR ''T'',
      208 \<mapsto> 0, 209 \<mapsto> 0, 210 \<mapsto> 1, 211 \<mapsto> byte_of_char CHR ''N'']"

text \<open>
  The same memory with the record at 16 given a tag of length 0: the flag byte has the tag
  bit and the import-path bit, the two bytes of the tag length follow the identifier, and
  the offset 8 follows them.
\<close>

definition sample_memory_empty_tag :: memory where
  "sample_memory_empty_tag =
     sample_memory(16 \<mapsto> 6, 20 \<mapsto> 0, 21 \<mapsto> 0, 22 \<mapsto> 8, 23 \<mapsto> 0, 24 \<mapsto> 0, 25 \<mapsto> 0)"

section \<open>Memory lemmas\<close>

lemma store_bytes_apply:
  "length bs \<le> 2 ^ 64 \<Longrightarrow>
   store_bytes p bs h a = (if unat (a - p) < length bs then Some (bs ! unat (a - p)) else h a)"
proof (induction bs arbitrary: p h)
  case Nil
  then show ?case by simp
next
  case (Cons b bs)
  show ?case
  proof (cases "a = p")
    case True
    have "unat (p - (p + 1)) = 2 ^ 64 - 1" 
      by (simp add: unsigned_minus_1_eq_mask mask_eq_exp_minus_1)
    with Cons True show ?thesis by simp
  next
    case False
    then have nz: "a - p \<noteq> 0" by simp
    have "unat (a - p - 1) = unat (a - p) - 1"
      using nz by (rule unat_minus_one)
    moreover have "a - (p + 1) = a - p - 1" by simp
    ultimately have "unat (a - (p + 1)) = unat (a - p) - 1"
      by (simp only:)
    moreover have "unat (a - p) \<noteq> 0" using nz 
      by (simp add: unat_eq_zero)
    ultimately show ?thesis using Cons False
      by (auto simp: nth_Cons split: nat.splits)
  qed
qed

lemma store_bytes_nth:
  assumes "i < length bs" "length bs \<le> 2 ^ 64"
  shows "store_bytes p bs h (p + word_of_nat i) = Some (bs ! i)"
proof -
  have "unat (word_of_nat i :: addr) = i"
    using assms by (simp add: unat_of_nat)
  then show ?thesis using assms by (simp add: store_bytes_apply)
qed

lemma store_bytes_append:
  "store_bytes p (xs @ ys) h = store_bytes (p + word_of_nat (length xs)) ys (store_bytes p xs h)"
  by (induction xs arbitrary: p h) (simp_all add: add.assoc)

lemma store_bytes_overwrite:
  assumes "length zs = length bs" "length bs \<le> 2 ^ 64"
  shows "store_bytes p bs (store_bytes p zs h) = store_bytes p bs h"
  using assms by (auto simp: store_bytes_apply fun_eq_iff)

lemma read_bytes_nth:
  "read_bytes h p k = Some bs \<Longrightarrow> i < k \<Longrightarrow> h (p + word_of_nat i) = Some (bs ! i)"
proof (induction k arbitrary: p bs i)
  case 0
  then show ?case by simp
next
  case (Suc k)
  from Suc.prems(1) obtain b bs' where hp: "h p = Some b"
    and rest: "read_bytes h (p + 1) k = Some bs'" and bs: "bs = b # bs'"
    by (auto split: option.splits)
  show ?case
  proof (cases i)
    case 0
    then show ?thesis using hp bs by simp
  next
    case (Suc j)
    then have "h (p + 1 + word_of_nat j) = Some (bs' ! j)"
      using Suc.IH [OF rest] Suc.prems(2) by simp
    then show ?thesis using Suc bs by (simp add: add.assoc)
  qed
qed

lemma read_bytes_eqI:
  "length bs = k \<Longrightarrow> (\<And>i. i < k \<Longrightarrow> h (p + word_of_nat i) = Some (bs ! i)) \<Longrightarrow> read_bytes h p k = Some bs"
proof (induction k arbitrary: p bs)
  case 0
  then show ?case by simp
next
  case (Suc k)
  then obtain b bs' where bs: "bs = b # bs'" by (cases bs) auto
  have "h p = Some b" using Suc.prems(2) [of 0] bs by simp
  moreover have "read_bytes h (p + 1) k = Some bs'"
  proof (rule Suc.IH)
    show "length bs' = k" using Suc.prems(1) bs by simp
    fix i assume "i < k"
    then show "h (p + 1 + word_of_nat i) = Some (bs' ! i)"
      using Suc.prems(2) [of "Suc i"] bs by (simp add: add.assoc)
  qed
  ultimately show ?case using bs by simp
qed

lemma read_bytes_store:
  "length bs \<le> 2 ^ 64 \<Longrightarrow> read_bytes (store_bytes p bs h) p (length bs) = Some bs"
  by (rule read_bytes_eqI) (simp_all add: store_bytes_nth)

lemma read_bytes_sub:
  assumes "read_bytes h p (length bs) = Some bs" "k + m \<le> length bs"
  shows "read_bytes h (p + word_of_nat k) m = Some (take m (drop k bs))"
proof (rule read_bytes_eqI)
  show "length (take m (drop k bs)) = m" using assms by simp
  fix i assume "i < m"
  then have "h (p + word_of_nat (k + i)) = Some (bs ! (k + i))"
    using assms by (intro read_bytes_nth [OF assms(1)]) simp
  then show "h (p + word_of_nat k + word_of_nat i) = Some (take m (drop k bs) ! i)"
    using \<open>i < m\<close> assms by (simp add: add.assoc)
qed

lemmas action_defs = ret_def fail_def and_then_def call_def deref_def store_def


lemma length_encode_name:
  "length (encode_name n tag exported) =
     (if tag = [] then 3 + length n else 3 + length n + (2 + length tag))"
  by (simp add: encode_name_def)

lemma NewName_effect:
  assumes "length n \<le> 65535" "length tag \<le> 65535"
  shows "NewName p n tag exported h =
           (Inr \<lparr>bytes = p\<rparr>, store_bytes p (encode_name n tag exported) h)"
proof -
  let ?enc = "encode_name n tag exported"
  let ?H = "store_bytes p (replicate (length ?enc) 0) h"
  have len: "length ?enc \<le> 2 ^ 64"
    using assms by (simp add: length_encode_name)
  have "NewName p n tag exported h = (Inr \<lparr>bytes = p\<rparr>, store_bytes p ?enc ?H)"
    using assms
    by (simp add: NewName_def Let_def action_defs make_bytes_def slice_set_def slice_addr_def
        slice_from_def copy_string_def encode_name_def store_bytes_append drop_bit_eq_div
        ac_simps del: replicate.simps)
  also have "store_bytes p ?enc ?H = store_bytes p ?enc h"
    using len by (simp add: store_bytes_overwrite)
  finally show ?thesis .
qed


lemma be16: "uint (push_bit 8 (ucast (hi::8 word) :: 16 word) OR ucast (lo :: 8 word)) = 256 * uint hi + uint lo"
proof -
  have "push_bit 8 (ucast hi :: 16 word) OR ucast lo = push_bit 8 (ucast hi) + ucast lo"
    by (rule disjunctive_add [symmetric]) (auto simp: bit_simps dest: bit_imp_le_length)
  also have "uint \<dots> = 256 * uint hi + uint lo"
    apply (simp add: uint_word_ariths push_bit_eq_mult uint_up_ucast is_up)
    using uint_lt2p [of hi] uint_lt2p [of lo] by simp
  finally show ?thesis .
qed

lemma be16i: "push_bit 8 (uint (b1::8 word)) OR uint (b2::8 word) = 256 * uint b1 + uint b2"
proof -
  have "push_bit 8 (uint b1) OR uint b2 = push_bit 8 (uint b1) + uint b2"
    by (rule disjunctive_add [symmetric]) (auto simp: bit_simps dest: bit_imp_le_length)
  then show ?thesis by (simp add: push_bit_eq_mult)
qed

lemma be16_length:
  assumes "m \<le> 65535"
  shows "256 * uint (word_of_nat (m div 256) :: byte) + uint (word_of_nat m :: byte) = int m"
proof -
  have "m div 256 < 256" using assms by simp
  then have "uint (word_of_nat (m div 256) :: byte) = int (m div 256)"
    by (simp add: uint_nat unat_of_nat)
  moreover have "uint (word_of_nat m :: byte) = int (m mod 256)"
    by (simp add: uint_nat unat_of_nat)
  ultimately show ?thesis by (simp add: zdiv_int zmod_int)
qed

lemma char_of_byte_of_char: "char_of_byte (byte_of_char c) = c"
  by (simp add: char_of_byte_def byte_of_char_def unat_of_nat)

lemma enc_header:
  assumes "read_bytes h p (length (encode_name n tag e)) = Some (encode_name n tag e)"
  shows "h p = Some ((if e then 1 else 0) OR (if tag = [] then 0 else 2))"
    and "h (p + 1) = Some (word_of_nat (length n div 256))"
    and "h (p + 2) = Some (word_of_nat (length n))"
  using read_bytes_nth [OF assms, of 0] read_bytes_nth [OF assms, of 1] read_bytes_nth [OF assms, of 2]
  by (simp_all add: length_encode_name) (simp_all add: encode_name_def)

lemma enc_tag_header:
  assumes "read_bytes h p (length (encode_name n tag e)) = Some (encode_name n tag e)" "tag \<noteq> []"
  shows "h (p + 3 + word_of_nat (length n)) = Some (word_of_nat (length tag div 256))"
    and "h (p + 3 + word_of_nat (length n) + 1) = Some (word_of_nat (length tag))"
  using read_bytes_nth [OF assms(1), of "3 + length n"] read_bytes_nth [OF assms(1), of "3 + length n + 1"] assms(2)
  by (simp_all add: length_encode_name) (simp_all add: encode_name_def nth_append ac_simps)

lemma read_bytes_mid:
  assumes "read_bytes h p (length bs) = Some bs" "bs = xs @ ys @ zs"
  shows "read_bytes h (p + word_of_nat (length xs)) (length ys) = Some ys"
  using read_bytes_sub [OF assms(1), of "length xs" "length ys"] assms(2) by simp

lemma enc_name_text:
  assumes "read_bytes h p (length (encode_name n tag e)) = Some (encode_name n tag e)"
  shows "read_bytes h (p + 3) (length n) = Some (map byte_of_char n)"
proof -
  obtain f zs where "encode_name n tag e =
      [f, word_of_nat (length n div 256), word_of_nat (length n)] @ map byte_of_char n @ zs"
    by (simp add: encode_name_def)
  from read_bytes_mid [OF assms this] show ?thesis by simp
qed

lemma enc_tag_text:
  assumes "read_bytes h p (length (encode_name n tag e)) = Some (encode_name n tag e)" "tag \<noteq> []"
  shows "read_bytes h (p + word_of_nat (3 + length n + 2)) (length tag) = Some (map byte_of_char tag)"
proof -
  obtain f where "encode_name n tag e =
      ([f, word_of_nat (length n div 256), word_of_nat (length n)] @ map byte_of_char n
         @ [word_of_nat (length tag div 256), word_of_nat (length tag)])
      @ map byte_of_char tag @ []"
    using assms(2) by (simp add: encode_name_def)
  from read_bytes_mid [OF assms(1) this] show ?thesis by (simp add: ac_simps)
qed

section \<open>What the accessors compute\<close>

lemma NameLen_eval:
  assumes "h (bytes n + 1) = Some hi" "h (bytes n + 2) = Some lo"
  shows "Name_NameLen n h = (Inr (256 * uint hi + uint lo), h)"
  using assms by (simp add: Name_NameLen_def Name_Data_def Add_def action_defs be16)

lemma TagLen_unset:
  assumes "h (bytes n) = Some f" "f AND 2 = 0"
  shows "Name_TagLen n h = (Inr 0, h)"
  using assms by (simp add: Name_TagLen_def Name_Data_def Add_def action_defs)

lemma TagLen_set:
  assumes "h (bytes n) = Some f" "f AND 2 \<noteq> 0"
    and "Name_NameLen n h = (Inr nl, h)"
    and "h (bytes n + word_of_int (3 + nl)) = Some hi"
    and "h (bytes n + word_of_int (3 + nl + 1)) = Some lo"
  shows "Name_TagLen n h = (Inr (256 * uint hi + uint lo), h)"
  using assms by (simp add: Name_TagLen_def Name_Data_def Add_def action_defs be16 Let_def)

lemma Name_eval:
  assumes "bytes n \<noteq> 0" "h (bytes n + 1) = Some hi" "h (bytes n + 2) = Some lo"
  shows "Name_Name n h = (Inr \<lparr>Data = bytes n + 3, Len = 256 * uint hi + uint lo\<rparr>, h)"
  using assms by (simp add: Name_Name_def action_defs be16i Let_def)

lemma Tag_eval:
  assumes "Name_TagLen n h = (Inr tlen, h)" "Name_NameLen n h = (Inr nl, h)"
  shows "Name_Tag n h = (Inr (if tlen = 0 then empty_string
           else \<lparr>Data = bytes n + word_of_int (3 + nl + 2), Len = tlen\<rparr>), h)"
  using assms by (simp add: Name_Tag_def Name_Data_def Add_def action_defs)

lemma PkgPath_unset:
  assumes "h (bytes n) = Some f" "f AND 4 = 0"
  shows "Name_PkgPath rt n h = (Inr empty_string, h)"
  using assms by (simp add: Name_PkgPath_def Name_Data_def Add_def action_defs)

lemma string_of_empty: "string_of h empty_string = Some []"
  by (simp add: string_of_def empty_string_def)

lemma flag_bits:
  "((if e then 1 else 0) OR (if tag = [] then 0 else 2) :: byte) AND 1 \<noteq> 0 \<longleftrightarrow> e"
  "((if e then 1 else 0) OR (if tag = [] then 0 else 2) :: byte) AND 2 = 0 \<longleftrightarrow> tag = []"
  "((if e then 1 else 0) OR (if tag = [] then 0 else 2) :: byte) AND 4 = 0"
  by simp_all

lemma char_of_byte_comp: "char_of_byte \<circ> byte_of_char = id"
  by (simp add: fun_eq_iff char_of_byte_of_char)


text \<open>Decoding a memory that holds the documented layout.\<close>

lemma decode_encoded:
  assumes enc: "read_bytes h p (length (encode_name n tag e)) = Some (encode_name n tag e)"
    and len: "length n \<le> 65535" "length tag \<le> 65535"
  shows "Name_IsExported \<lparr>bytes = p\<rparr> h = (Inr e, h)"
    and "Name_NameLen \<lparr>bytes = p\<rparr> h = (Inr (int (length n)), h)"
    and "Name_TagLen \<lparr>bytes = p\<rparr> h = (Inr (int (length tag)), h)"
proof -
  note hd = enc_header [OF enc]
  show "Name_IsExported \<lparr>bytes = p\<rparr> h = (Inr e, h)"
    using hd(1) by (simp add: Name_IsExported_def action_defs)
  show nl: "Name_NameLen \<lparr>bytes = p\<rparr> h = (Inr (int (length n)), h)"
    using NameLen_eval [of h "\<lparr>bytes = p\<rparr>", simplified, OF hd(2,3)] len(1)
    by (simp add: be16_length)
  show "Name_TagLen \<lparr>bytes = p\<rparr> h = (Inr (int (length tag)), h)"
  proof (cases "tag = []")
    case True
    then show ?thesis using TagLen_unset [of h "\<lparr>bytes = p\<rparr>", simplified, OF hd(1)] by simp
  next
    case False
    note th = enc_tag_header [OF enc False]
    let ?f = "(if e then 1 else 0) OR (if tag = [] then 0 else 2) :: byte"
    have f0: "h (bytes \<lparr>bytes = p\<rparr>) = Some ?f" using hd(1) by simp
    have f2: "?f AND 2 \<noteq> 0" using False by (cases e) simp_all
    have a1: "h (bytes \<lparr>bytes = p\<rparr> + word_of_int (3 + int (length n))) =
        Some (word_of_nat (length tag div 256))"
      using th(1) by (simp add: ac_simps)
    have a2: "h (bytes \<lparr>bytes = p\<rparr> + word_of_int (3 + int (length n) + 1)) =
        Some (word_of_nat (length tag))"
      using th(2) by (simp add: ac_simps)
    show ?thesis
      using TagLen_set [OF f0 f2 nl a1 a2] len(2) by (simp add: be16_length)
  qed
qed


lemma decode_encoded_text:
  assumes enc: "read_bytes h p (length (encode_name n tag e)) = Some (encode_name n tag e)"
    and len: "length n \<le> 65535" "length tag \<le> 65535"
  shows "p \<noteq> 0 \<Longrightarrow> \<exists>s. Name_Name \<lparr>bytes = p\<rparr> h = (Inr s, h) \<and> string_of h s = Some n"
    and "\<exists>t. Name_Tag \<lparr>bytes = p\<rparr> h = (Inr t, h) \<and> string_of h t = Some tag"
proof -
  note hd = enc_header [OF enc]
  note dec = decode_encoded [OF enc len]
  {
    assume "p \<noteq> 0"
    then have "Name_Name \<lparr>bytes = p\<rparr> h = (Inr \<lparr>Data = p + 3, Len = int (length n)\<rparr>, h)"
      using Name_eval [of "\<lparr>bytes = p\<rparr>" h, simplified, OF _ hd(2,3)] len(1)
      by (simp add: be16_length)
    moreover have "string_of h \<lparr>Data = p + 3, Len = int (length n)\<rparr> = Some n"
      using enc_name_text [OF enc] by (simp add: string_of_def char_of_byte_comp)
    ultimately show "\<exists>s. Name_Name \<lparr>bytes = p\<rparr> h = (Inr s, h) \<and> string_of h s = Some n"
      by blast
  }
  show "\<exists>t. Name_Tag \<lparr>bytes = p\<rparr> h = (Inr t, h) \<and> string_of h t = Some tag"
  proof (cases "tag = []")
    case True
    then show ?thesis
      using Tag_eval [OF dec(3) dec(2)] by (simp add: string_of_empty)
  next
    case False
    have "string_of h \<lparr>Data = p + word_of_int (3 + int (length n) + 2), Len = int (length tag)\<rparr> = Some tag"
      using enc_tag_text [OF enc False] by (simp add: string_of_def char_of_byte_comp ac_simps)
    then show ?thesis
      using Tag_eval [OF dec(3) dec(2)] False by simp
  qed
qed

lemma NewName_name_too_long:
  "length n > 65535 \<Longrightarrow>
     NewName p n tag e h = (Inl (Panic (''reflect.nameFrom: name too long: '' @ n)), h)"
  by (simp add: NewName_def fail_def)

lemma NewName_tag_too_long:
  "length n \<le> 65535 \<Longrightarrow> length tag > 65535 \<Longrightarrow>
     NewName p n tag e h = (Inl (Panic (''reflect.nameFrom: tag too long: '' @ tag)), h)"
  by (simp add: NewName_def fail_def)

lemma NewName_success:
  assumes "NewName p n tag e h = (Inr nm, h')"
  shows "length n \<le> 65535 \<and> length tag \<le> 65535
         \<and> nm = \<lparr>bytes = p\<rparr> \<and> h' = store_bytes p (encode_name n tag e) h"
proof -
  have "\<not> length n > 65535"
    using assms NewName_name_too_long [of n p tag e h] by auto
  moreover have "\<not> length tag > 65535"
    using assms calculation NewName_tag_too_long [of n tag p e h] by auto
  ultimately have len: "length n \<le> 65535" "length tag \<le> 65535" by simp_all
  then show ?thesis using assms NewName_effect [of n tag p e h] by simp
qed

section \<open>Frame lemmas\<close>

lemma snd_and_then:
  assumes "snd (m h) = h" "\<And>x. snd (f x h) = h"
  shows "snd (and_then m f h) = h"
  using assms by (cases "m h") (auto simp: and_then_def split: sum.splits)

lemma snd_simple [simp]:
  "snd (ret x h) = h" "snd (fail e h) = h" "snd (call r h) = h" "snd (deref a h) = h"
  by (simp_all add: action_defs)

lemma NameLen_frame: "snd (Name_NameLen n h) = h"
  unfolding Name_NameLen_def by (intro snd_and_then) simp_all

lemma TagLen_frame: "snd (Name_TagLen n h) = h"
  unfolding Name_TagLen_def Let_def
  by (intro snd_and_then) (simp_all add: NameLen_frame snd_and_then)

lemma IsExported_frame: "snd (Name_IsExported n h) = h"
  unfolding Name_IsExported_def by (intro snd_and_then) simp_all

lemma Name_frame: "snd (Name_Name n h) = h"
  unfolding Name_Name_def Let_def by (simp add: snd_and_then)

lemma Tag_frame: "snd (Name_Tag n h) = h"
  unfolding Name_Tag_def
  by (intro snd_and_then) (simp_all add: TagLen_frame NameLen_frame snd_and_then)

lemma load_int32_frame: "snd (load_int32 ord a h) = h"
  unfolding load_int32_def by (intro snd_and_then) simp_all

lemma PkgPath_frame: "snd (Name_PkgPath rt n h) = h"
  unfolding Name_PkgPath_def Let_def
  by (simp add: snd_and_then NameLen_frame TagLen_frame load_int32_frame Name_frame)

lemma rtype_frame:
  "snd (rtype_NameOff rt t off h) = h" "snd (rtype_TypeOff rt t off h) = h"
  "snd (rtype_TextOff rt t off h) = h"
  by (simp_all add: rtype_NameOff_def rtype_TypeOff_def rtype_TextOff_def snd_and_then)

lemma NewName_frame:
  assumes "(if tag = [] then 3 + length n else 3 + length n + (2 + length tag)) \<le> unat (a - p)"
  shows "snd (NewName p n tag e h) a = h a"
proof -
  consider (ok) "length n \<le> 65535" "length tag \<le> 65535"
    | (name) "length n > 65535"
    | (tag) "length n \<le> 65535" "length tag > 65535"
    by linarith
  then show ?thesis
  proof cases
    case ok
    then have "length (encode_name n tag e) \<le> 2 ^ 64"
      by (simp add: length_encode_name)
    then show ?thesis
      using ok assms NewName_effect [of n tag p e h]
      by (simp add: store_bytes_apply length_encode_name)
  next
    case name
    then show ?thesis by (simp add: NewName_name_too_long)
  next
    case tag
    then show ?thesis by (simp add: NewName_tag_too_long)
  qed
qed

lemma NewName_preserves:
  assumes fresh: "\<And>i. i < (if tag = [] then 3 + length n else 3 + length n + (2 + length tag))
              \<Longrightarrow> h (p + word_of_nat i) = None"
    and old: "h a = Some y"
  shows "snd (NewName p n tag e h) a = Some y"
proof -
  let ?l = "if tag = [] then 3 + length n else 3 + length n + (2 + length tag)"
  have "\<not> unat (a - p) < ?l"
  proof
    assume "unat (a - p) < ?l"
    then have "h (p + word_of_nat (unat (a - p))) = None" by (rule fresh)
    then show False using old by simp
  qed
  then have "?l \<le> unat (a - p)" by simp
  then show ?thesis using NewName_frame [of tag n a p e h] old by simp
qed

lemma NewName_allocates:
  assumes "length n \<le> 65535" "length tag \<le> 65535"
    and "i < (if tag = [] then 3 + length n else 3 + length n + (2 + length tag))"
  shows "snd (NewName p n tag e h) (p + word_of_nat i) \<noteq> None"
proof -
  have "length (encode_name n tag e) \<le> 2 ^ 64"
    using assms by (simp add: length_encode_name)
  moreover have "i < length (encode_name n tag e)"
    using assms(3) by (simp add: length_encode_name)
  ultimately show ?thesis
    using NewName_effect [OF assms(1,2), of p e h] by (simp add: store_bytes_nth)
qed

section \<open>Round trip\<close>

text \<open>
  C1. Round trip: for an identifier and a tag of at most 65535 bytes each and either value
  of the exported flag, \<open>NewName\<close> succeeds, and on the record it returns and the memory
  it leaves \<open>Name\<close> gives a string whose text is the identifier, \<open>Tag\<close> a string
  whose text is the tag, and \<open>IsExported\<close> the flag. The buffer is at a non-nil
  address, as every buffer that \<^verbatim>\<open>make\<close> returns is.
\<close>

theorem NewName_roundtrip:
  assumes "length n \<le> 65535" "length tag \<le> 65535" "p \<noteq> 0"
  shows "\<exists>nm h'. NewName p n tag exported h = (Inr nm, h')
           \<and> (\<exists>s. Name_Name nm h' = (Inr s, h') \<and> string_of h' s = Some n)
           \<and> (\<exists>t. Name_Tag nm h' = (Inr t, h') \<and> string_of h' t = Some tag)
           \<and> Name_IsExported nm h' = (Inr exported, h')"
proof -
  let ?enc = "encode_name n tag exported"
  let ?h = "store_bytes p ?enc h"
  have "length ?enc \<le> 2 ^ 64" using assms by (simp add: length_encode_name)
  then have enc: "read_bytes ?h p (length ?enc) = Some ?enc"
    by (rule read_bytes_store)
  show ?thesis
    using NewName_effect [OF assms(1,2), of p exported h]
      decode_encoded_text [OF enc assms(1,2)] decode_encoded(1) [OF enc assms(1,2)] assms(3)
    by simp
qed

theorem NewName_roundtrip_witness:
  "\<exists>nm h'. NewName 16 ''Field'' ''json:\"f\"'' True Map.empty = (Inr nm, h')
           \<and> (\<exists>s. Name_Name nm h' = (Inr s, h') \<and> string_of h' s = Some ''Field'')
           \<and> (\<exists>t. Name_Tag nm h' = (Inr t, h') \<and> string_of h' t = Some ''json:\"f\"'')
           \<and> Name_IsExported nm h' = (Inr True, h')"
  using NewName_roundtrip [of "''Field''" "''json:\"f\"''" 16 True Map.empty] by simp

section \<open>Construction errors\<close>

text \<open>
  C2. \<open>NewName\<close> ends in its own panic exactly when the identifier or the tag is longer
  than 65535 bytes, and returns a record exactly when both fit; no other error (a fault, an
  index or a slice-bounds panic) is possible. In particular an identifier of 65536 bytes
  fails with the "name too long" panic, and one of 65535 bytes, with a tag that fits,
  succeeds with a record at the buffer's first byte.
\<close>

theorem NewName_fails_iff_too_long:
  "((\<exists>msg. fst (NewName p n tag e h) = Inl (Panic msg))
      \<longleftrightarrow> (length n > 65535 \<or> length tag > 65535))
   \<and> ((\<exists>nm. fst (NewName p n tag e h) = Inr nm)
      \<longleftrightarrow> (length n \<le> 65535 \<and> length tag \<le> 65535))
   \<and> (length n = 65536
      \<longrightarrow> fst (NewName p n tag e h) = Inl (Panic (''reflect.nameFrom: name too long: '' @ n)))
   \<and> (length n = 65535 \<and> length tag \<le> 65535
      \<longrightarrow> fst (NewName p n tag e h) = Inr \<lparr>bytes = p\<rparr>)"
proof -
  consider (ok) "length n \<le> 65535" "length tag \<le> 65535"
    | (name) "length n > 65535"
    | (tag) "length n \<le> 65535" "length tag > 65535"
    by linarith
  then show ?thesis
  proof cases
    case ok
    then show ?thesis using NewName_effect [of n tag p e h] by simp
  next
    case name
    then show ?thesis using NewName_name_too_long [of n p tag e h] by simp
  next
    case tag
    then show ?thesis using NewName_tag_too_long [of n tag p e h] by simp
  qed
qed

theorem NewName_fails_iff_too_long_witness:
  "fst (NewName 16 (replicate 65536 CHR ''a'') [] False Map.empty)
     = Inl (Panic (''reflect.nameFrom: name too long: '' @ replicate 65536 CHR ''a''))
   \<and> fst (NewName 16 (replicate 65535 CHR ''a'') [] False Map.empty) = Inr \<lparr>bytes = 16\<rparr>"
proof -
  have long: "length (replicate 65536 CHR ''a'') = 65536"
    and short: "length (replicate 65535 CHR ''a'') = 65535"
    by (simp_all only: length_replicate)
  have notag: "length ([] :: string) \<le> 65535" by simp
  show ?thesis
    using NewName_fails_iff_too_long [of 16 "replicate 65536 CHR ''a''" "[]" False Map.empty]
      NewName_fails_iff_too_long [of 16 "replicate 65535 CHR ''a''" "[]" False Map.empty]
      long short notag
    by blast
qed

section \<open>Package path\<close>


text \<open>
  The offset on the same path: \<open>PkgPath\<close> steps over the tag only when \<open>TagLen\<close> is
  positive. On the record with a tag of length 0 the offset 8 is stored at \<open>3 + 1 + 2\<close>,
  past the two bytes of the tag length, as the comment on \<^verbatim>\<open>Name\<close> lays a record
  out; \<open>PkgPath\<close> reads the four bytes at \<open>3 + 1\<close> instead, gets 524288, and faults
  on the address that the resolver gives for it.
\<close>

lemma PkgPath_empty_tag_offset:
  "sample_memory_empty_tag 16 = Some 6
   \<and> Name_NameLen \<lparr>bytes = 16\<rparr> sample_memory_empty_tag = (Inr 1, sample_memory_empty_tag)
   \<and> Name_TagLen \<lparr>bytes = 16\<rparr> sample_memory_empty_tag = (Inr 0, sample_memory_empty_tag)
   \<and> load_int32 LittleEndian (16 + 3 + 1 + 2) sample_memory_empty_tag
         = (Inr 8, sample_memory_empty_tag)
   \<and> load_int32 LittleEndian (16 + 3 + 1) sample_memory_empty_tag
         = (Inr 524288, sample_memory_empty_tag)
   \<and> Name_PkgPath sample_runtime \<lparr>bytes = 16\<rparr> sample_memory_empty_tag
         = (Inl (Fault 524389), sample_memory_empty_tag)"
  by (simp add: sample_memory_empty_tag_def sample_memory_def sample_runtime_def
      Name_PkgPath_def Name_Name_def Name_NameLen_def Name_TagLen_def Name_Data_def Add_def
      load_int32_def int32_of_bytes_def action_defs Let_def)

text \<open>
  C4. When the import-path bit of the flag byte is unset, \<open>PkgPath\<close> returns the empty
  string, whatever the resolver, the other flag bits and the rest of the memory are.
\<close>

theorem PkgPath_empty_without_flag:
  assumes "h (bytes n) = Some f" "f AND 4 = 0"
  shows "Name_PkgPath rt n h = (Inr empty_string, h) \<and> string_of h empty_string = Some []"
  using assms by (simp add: PkgPath_unset string_of_empty)

theorem PkgPath_empty_without_flag_witness:
  "Name_PkgPath sample_runtime \<lparr>bytes = 16\<rparr> [16 \<mapsto> 3, 17 \<mapsto> 0, 18 \<mapsto> 1, 19 \<mapsto> 120]
     = (Inr empty_string, [16 \<mapsto> 3, 17 \<mapsto> 0, 18 \<mapsto> 1, 19 \<mapsto> 120])
   \<and> string_of [16 \<mapsto> 3, 17 \<mapsto> 0, 18 \<mapsto> 1, 19 \<mapsto> 120] empty_string = Some []"
  using PkgPath_empty_without_flag
    [of "[16 \<mapsto> 3, 17 \<mapsto> 0, 18 \<mapsto> 1, 19 \<mapsto> 120]" "\<lparr>bytes = 16\<rparr>" 3 sample_runtime]
  by simp

section \<open>Length fields\<close>

text \<open>
  C5. \<open>TagLen\<close> returns 0 when bit 1 of the flag byte is unset. When it is set,
  \<open>TagLen\<close> returns the big-endian count \<open>256 * hi + lo\<close> of the two bytes at the
  offsets \<open>3 + NameLen\<close> and \<open>3 + NameLen + 1\<close> from the record's first byte.
\<close>

theorem TagLen_reads_count:
  assumes "h (bytes n) = Some f"
  shows "(f AND 2 = 0 \<longrightarrow> Name_TagLen n h = (Inr 0, h)) \<and>
         (f AND 2 \<noteq> 0 \<longrightarrow>
            (\<forall>nl hi lo. Name_NameLen n h = (Inr nl, h)
               \<longrightarrow> h (bytes n + word_of_int (3 + nl)) = Some hi
               \<longrightarrow> h (bytes n + word_of_int (3 + nl + 1)) = Some lo
               \<longrightarrow> Name_TagLen n h = (Inr (256 * uint hi + uint lo), h)))"
  using assms TagLen_unset [of h n f] TagLen_set [of h n f] by blast

theorem TagLen_reads_count_witness:
  "Name_TagLen \<lparr>bytes = 16\<rparr> [16 \<mapsto> 1, 17 \<mapsto> 0, 18 \<mapsto> 1, 19 \<mapsto> 120, 20 \<mapsto> 1, 21 \<mapsto> 4]
     = (Inr 0, [16 \<mapsto> 1, 17 \<mapsto> 0, 18 \<mapsto> 1, 19 \<mapsto> 120, 20 \<mapsto> 1, 21 \<mapsto> 4])
   \<and> Name_TagLen \<lparr>bytes = 16\<rparr> [16 \<mapsto> 2, 17 \<mapsto> 0, 18 \<mapsto> 1, 19 \<mapsto> 120, 20 \<mapsto> 1, 21 \<mapsto> 4]
     = (Inr 260, [16 \<mapsto> 2, 17 \<mapsto> 0, 18 \<mapsto> 1, 19 \<mapsto> 120, 20 \<mapsto> 1, 21 \<mapsto> 4])"
proof -
  let ?h1 = "[16 \<mapsto> 1, 17 \<mapsto> 0, 18 \<mapsto> 1, 19 \<mapsto> 120, 20 \<mapsto> 1, 21 \<mapsto> 4] :: memory"
  let ?h2 = "[16 \<mapsto> 2, 17 \<mapsto> 0, 18 \<mapsto> 1, 19 \<mapsto> 120, 20 \<mapsto> 1, 21 \<mapsto> 4] :: memory"
  have nl: "Name_NameLen \<lparr>bytes = 16\<rparr> ?h2 = (Inr 1, ?h2)"
    using NameLen_eval [of ?h2 "\<lparr>bytes = 16\<rparr>" 0 1] by simp
  have "Name_TagLen \<lparr>bytes = 16\<rparr> ?h1 = (Inr 0, ?h1)"
    using TagLen_reads_count [of ?h1 "\<lparr>bytes = 16\<rparr>" 1] by simp
  moreover have "Name_TagLen \<lparr>bytes = 16\<rparr> ?h2 = (Inr 260, ?h2)"
    using TagLen_reads_count [of ?h2 "\<lparr>bytes = 16\<rparr>" 2] nl by simp
  ultimately show ?thesis by simp
qed

text \<open>
  C6. \<open>NameLen\<close> returns the big-endian count of the two bytes after the flag byte:
  \<open>256 * hi + lo\<close> with \<open>hi\<close> the byte at offset 1 and \<open>lo\<close> the byte at offset 2.
\<close>

theorem NameLen_big_endian:
  assumes "h (bytes n + 1) = Some hi" "h (bytes n + 2) = Some lo"
  shows "Name_NameLen n h = (Inr (256 * uint hi + uint lo), h)"
  using assms by (rule NameLen_eval)

theorem NameLen_big_endian_witness:
  "Name_NameLen \<lparr>bytes = 16\<rparr> [16 \<mapsto> 0, 17 \<mapsto> 1, 18 \<mapsto> 2]
     = (Inr 258, [16 \<mapsto> 0, 17 \<mapsto> 1, 18 \<mapsto> 2])"
  using NameLen_big_endian [of "[16 \<mapsto> 0, 17 \<mapsto> 1, 18 \<mapsto> 2]" "\<lparr>bytes = 16\<rparr>" 1 2]
  by simp

section \<open>Frame\<close>

text \<open>
  C7. Every accessor of a record (\<open>IsExported\<close>, \<open>NameLen\<close>, \<open>TagLen\<close>,
  \<open>Name\<close>, \<open>Tag\<close>, \<open>PkgPath\<close>) and every offset method of a descriptor leaves
  the memory exactly as it found it, whether it returns or faults. \<open>NewName\<close> maps the
  bytes of its buffer when it succeeds, changes no byte outside the buffer, and so, when
  the buffer that the allocator hands it was unmapped before, keeps every byte that was
  mapped before the call. The resolvers are the runtime's and are taken to be lookups.
\<close>

theorem memory_frame:
  "snd (Name_IsExported n h) = h
   \<and> snd (Name_NameLen n h) = h
   \<and> snd (Name_TagLen n h) = h
   \<and> snd (Name_Name n h) = h
   \<and> snd (Name_Tag n h) = h
   \<and> snd (Name_PkgPath rt n h) = h
   \<and> snd (rtype_NameOff rt t off h) = h
   \<and> snd (rtype_TypeOff rt t off h) = h
   \<and> snd (rtype_TextOff rt t off h) = h
   \<and> (length s \<le> 65535 \<and> length tag \<le> 65535
          \<and> i < (if tag = [] then 3 + length s else 3 + length s + (2 + length tag))
        \<longrightarrow> snd (NewName p s tag e h) (p + word_of_nat i) \<noteq> None)
   \<and> ((if tag = [] then 3 + length s else 3 + length s + (2 + length tag)) \<le> unat (a - p)
        \<longrightarrow> snd (NewName p s tag e h) a = h a)
   \<and> ((\<forall>i < (if tag = [] then 3 + length s else 3 + length s + (2 + length tag)).
          h (p + word_of_nat i) = None)
        \<longrightarrow> (\<forall>b y. h b = Some y \<longrightarrow> snd (NewName p s tag e h) b = Some y))"
  using NewName_frame [of tag s a p e h] NewName_preserves [of tag s h p _ _ e]
    NewName_allocates [of s tag i p e h]
  by (simp add: IsExported_frame NameLen_frame TagLen_frame Name_frame Tag_frame PkgPath_frame
      rtype_frame)

theorem memory_frame_witness:
  "snd (NewName 16 ''x'' [] True [100 \<mapsto> 7]) 100 = Some 7
   \<and> snd (Name_PkgPath sample_runtime \<lparr>bytes = 16\<rparr> [100 \<mapsto> 7]) = [100 \<mapsto> 7]"
proof -
  have "(if ([] :: string) = [] then 3 + length ''x'' else 3 + length ''x'' + (2 + length ([] :: string)))
          \<le> unat ((100 :: addr) - 16)"
    by simp
  then show ?thesis
    using memory_frame [where n = "\<lparr>bytes = 16\<rparr>" and h = "[100 \<mapsto> 7]" and rt = sample_runtime
        and tag = "[]" and s = "''x''" and a = 100 and p = 16 and e = True]
    by simp
qed

section \<open>Pointer arithmetic\<close>

text \<open>
  C8. \<open>Add\<close> returns the base address advanced by the byte count, in 64-bit arithmetic
  that wraps; the result is the same for every \<open>whySafe\<close> string. \<open>Add\<close> is a total
  function of its arguments alone: it checks no bound, reads no memory and cannot fail.
\<close>

theorem Add_advances:
  "Add p x whySafe = p + x
   \<and> unat (Add p x whySafe) = (unat p + unat x) mod 2 ^ 64
   \<and> Add p x whySafe = Add p x whySafe'"
  by (simp add: Add_def unat_word_ariths)

section \<open>Nil records\<close>

text \<open>
  C9. On a record whose byte pointer is nil, \<open>Name\<close> and \<open>PkgPath\<close> return the
  empty string in every memory, the empty one included, so without any load.
  \<open>IsExported\<close>, \<open>NameLen\<close> and \<open>TagLen\<close> have no such guard: they load from the
  addresses 0, 1 and 0, and fault when those are unmapped.
\<close>

theorem nil_guard:
  "Name_Name \<lparr>bytes = 0\<rparr> h = (Inr empty_string, h)
   \<and> Name_PkgPath rt \<lparr>bytes = 0\<rparr> h = (Inr empty_string, h)
   \<and> string_of h empty_string = Some []
   \<and> (h 0 = None \<longrightarrow> Name_IsExported \<lparr>bytes = 0\<rparr> h = (Inl (Fault 0), h)
                    \<and> Name_TagLen \<lparr>bytes = 0\<rparr> h = (Inl (Fault 0), h))
   \<and> (h 1 = None \<longrightarrow> Name_NameLen \<lparr>bytes = 0\<rparr> h = (Inl (Fault 1), h))"
  by (simp add: Name_Name_def Name_PkgPath_def Name_IsExported_def Name_TagLen_def
      Name_NameLen_def Name_Data_def Add_def action_defs string_of_empty)

theorem nil_guard_witness:
  "Name_Name \<lparr>bytes = 0\<rparr> Map.empty = (Inr empty_string, Map.empty)
   \<and> Name_PkgPath sample_runtime \<lparr>bytes = 0\<rparr> Map.empty = (Inr empty_string, Map.empty)
   \<and> Name_IsExported \<lparr>bytes = 0\<rparr> Map.empty = (Inl (Fault 0), Map.empty)
   \<and> Name_TagLen \<lparr>bytes = 0\<rparr> Map.empty = (Inl (Fault 0), Map.empty)
   \<and> Name_NameLen \<lparr>bytes = 0\<rparr> Map.empty = (Inl (Fault 1), Map.empty)"
  using nil_guard [of Map.empty sample_runtime] by simp

section \<open>Constructed records carry no package path\<close>

text \<open>
  C10. Whenever \<open>NewName\<close> returns a record, the flag byte it wrote has the
  import-path bit unset, and \<open>PkgPath\<close> on that record returns the empty string.
\<close>

theorem NewName_never_sets_pkgpath:
  assumes "NewName p n tag e h = (Inr nm, h')"
  shows "(\<exists>f. h' (bytes nm) = Some f \<and> f AND 4 = 0)
         \<and> Name_PkgPath rt nm h' = (Inr empty_string, h')
         \<and> string_of h' empty_string = Some []"
proof -
  let ?enc = "encode_name n tag e"
  from NewName_success [OF assms]
  have len: "length n \<le> 65535" "length tag \<le> 65535"
    and nm: "nm = \<lparr>bytes = p\<rparr>" and h': "h' = store_bytes p ?enc h"
    by simp_all
  have "length ?enc \<le> 2 ^ 64" using len by (simp add: length_encode_name)
  then have enc: "read_bytes h' p (length ?enc) = Some ?enc"
    unfolding h' by (rule read_bytes_store)
  have flag: "h' (bytes nm) = Some ((if e then 1 else 0) OR (if tag = [] then 0 else 2))"
    using enc_header(1) [OF enc] nm by simp
  have bit: "((if e then 1 else 0) OR (if tag = [] then 0 else 2) :: byte) AND 4 = 0"
    by (rule flag_bits(3))
  show ?thesis
    using flag bit PkgPath_unset [where h = "h'" and n = nm and rt = rt, OF flag bit]
    by (simp add: string_of_empty)
qed

theorem NewName_never_sets_pkgpath_witness:
  "\<exists>nm h'. NewName 16 ''x'' [] True Map.empty = (Inr nm, h')
     \<and> (\<exists>f. h' (bytes nm) = Some f \<and> f AND 4 = 0)
     \<and> Name_PkgPath sample_runtime nm h' = (Inr empty_string, h')"
proof -
  have eq: "NewName 16 ''x'' [] True Map.empty
      = (Inr \<lparr>bytes = 16\<rparr>, store_bytes 16 (encode_name ''x'' [] True) Map.empty)"
    by (rule NewName_effect) simp_all
  show ?thesis
    using NewName_never_sets_pkgpath [OF eq, of sample_runtime] eq by blast
qed

end
